theory Spec2Isabelle
  imports Main
begin

section \<open>JavaScript values of the worker\<close>

text \<open>
  This theory models the worker of \<^verbatim>\<open>src/index.ts\<close>: its \<^verbatim>\<open>fetch\<close> handler and the
  \<^verbatim>\<open>start\<close> callback of the stream it returns. The file holds an earlier copy of the
  handler, without the GET page, before the current one; the current one is modelled.

  The worker handles JSON values only: the decoded request body, the events decoded by the
  provider SDK, and the envelopes it serialises. A JSON object is its property list in
  enumeration order. Numbers are the integers (a JavaScript number that is not an integer
  has no counterpart here); strings are lists of code units below 256.
\<close>

datatype json =
    JNull
  | JBool bool
  | JNum int
  | JStr string
  | JArr "json list"
  | JObj "(string \<times> json) list"

text \<open>
  A thrown value: an instance of \<^verbatim>\<open>Error\<close> with its message, or anything else
  (\<^verbatim>\<open>error instanceof Error\<close> is false).
\<close>

datatype js_error = JsError string | NonError

text \<open>
  Property read \<^verbatim>\<open>v.k\<close> for the keys this program reads (\<^verbatim>\<open>messages\<close>,
  \<^verbatim>\<open>tools\<close>, \<^verbatim>\<open>type\<close>): \<open>None\<close> is \<^verbatim>\<open>undefined\<close>. Reading a property of
  \<^verbatim>\<open>null\<close> throws a TypeError (message as V8 words it); booleans, numbers, strings
  and arrays have no own property of these names.
\<close>

fun get_prop :: "json \<Rightarrow> string \<Rightarrow> js_error + json option" where
  "get_prop JNull k =
     Inl (JsError (''Cannot read properties of null (reading '' @ [CHR 0x27] @ k @ [CHR 0x27] @ '')''))"
| "get_prop (JObj ps) k = Inr (map_of ps k)"
| "get_prop _ k = Inr None"

section \<open>JSON.stringify\<close>

text \<open>Digits; every call below passes a number in range (\<open>n < 16\<close>, \<open>d < 10\<close>).\<close>

definition hex_digit :: "nat \<Rightarrow> char" where
  "hex_digit n = ''0123456789abcdef'' ! n"

text \<open>QuoteJSONString, one code unit at a time.\<close>

definition quote_char :: "char \<Rightarrow> string" where
  "quote_char c =
     (if c = CHR 0x08 then [CHR 0x5C, CHR ''b'']
      else if c = CHR 0x09 then [CHR 0x5C, CHR ''t'']
      else if c = CHR 0x0A then [CHR 0x5C, CHR ''n'']
      else if c = CHR 0x0C then [CHR 0x5C, CHR ''f'']
      else if c = CHR 0x0D then [CHR 0x5C, CHR ''r'']
      else if c = CHR 0x22 then [CHR 0x5C, CHR 0x22]
      else if c = CHR 0x5C then [CHR 0x5C, CHR 0x5C]
      else if (of_char c :: nat) < 0x20
        then [CHR 0x5C, CHR ''u'', CHR ''0'', CHR ''0'',
              hex_digit (of_char c div 16), hex_digit (of_char c mod 16)]
      else [c])"

definition quote :: "string \<Rightarrow> string" where
  "quote s = [CHR 0x22] @ concat (map quote_char s) @ [CHR 0x22]"

definition digit_char :: "nat \<Rightarrow> char" where
  "digit_char d = ''0123456789'' ! d"

fun digits :: "nat \<Rightarrow> string" where
  "digits n = (if n < 10 then [digit_char n] else digits (n div 10) @ [digit_char (n mod 10)])"

declare digits.simps [simp del]

text \<open>
  Number::toString on an integer in the safe range \<open>\<bar>i\<bar> \<le> 2^53 - 1\<close>: its decimal
  digits, after a minus sign if it is negative.
\<close>

definition show_int :: "int \<Rightarrow> string" where
  "show_int i = (if i < 0 then CHR ''-'' # digits (nat (- i)) else digits (nat i))"

fun JSON_stringify :: "json \<Rightarrow> string"
  and stringify_elements :: "json list \<Rightarrow> string"
  and stringify_members :: "(string \<times> json) list \<Rightarrow> string" where
  "JSON_stringify JNull = ''null''"
| "JSON_stringify (JBool b) = (if b then ''true'' else ''false'')"
| "JSON_stringify (JNum i) = show_int i"
| "JSON_stringify (JStr s) = quote s"
| "JSON_stringify (JArr xs) = ''['' @ stringify_elements xs @ '']''"
| "JSON_stringify (JObj ps) = ''{'' @ stringify_members ps @ ''}''"
| "stringify_elements [] = []"
| "stringify_elements [x] = JSON_stringify x"
| "stringify_elements (x # y # ys) = JSON_stringify x @ '','' @ stringify_elements (y # ys)"
| "stringify_members [] = []"
| "stringify_members [(k, v)] = quote k @ '':'' @ JSON_stringify v"
| "stringify_members ((k, v) # p # ps) =
     quote k @ '':'' @ JSON_stringify v @ '','' @ stringify_members (p # ps)"

text \<open>
  An object literal may hold \<^verbatim>\<open>undefined\<close> property values (\<open>None\<close>);
  \<^verbatim>\<open>JSON.stringify\<close> leaves those properties out.
\<close>

definition defined_props :: "(string \<times> json option) list \<Rightarrow> json" where
  "defined_props ps = JObj (concat (map (\<lambda>(k, v). case v of None \<Rightarrow> [] | Some j \<Rightarrow> [(k, j)]) ps))"

definition JSON_stringify_literal :: "(string \<times> json option) list \<Rightarrow> string" where
  "JSON_stringify_literal ps = JSON_stringify (defined_props ps)"

section \<open>The provider SDK and the outward stream\<close>

definition MODEL :: string where
  "MODEL = ''gpt-4.1-nano-2025-04-14''"

record create_params =
  model :: string
  input :: "json option"
  tools :: "json option"
  stream :: bool
  parallel_tool_calls :: bool

text \<open>
  The async iterable the SDK returns: each pull yields an event, ends the iteration,
  or rejects.
\<close>

datatype upstream = Yield json upstream | Complete | Fault js_error

fun events_of :: "upstream \<Rightarrow> json list" where
  "events_of (Yield ev rest) = ev # events_of rest"
| "events_of Complete = []"
| "events_of (Fault e) = []"

fun outcome_of :: "upstream \<Rightarrow> js_error option" where
  "outcome_of (Yield ev rest) = outcome_of rest"
| "outcome_of Complete = None"
| "outcome_of (Fault e) = Some e"

datatype client = Client "string option"

text \<open>
  The SDK is external: its constructor and its streaming call are parameters. Both may throw.
\<close>

record provider =
  new_OpenAI :: "string option \<Rightarrow> js_error + client"
  responses_create :: "client \<Rightarrow> create_params \<Rightarrow> js_error + upstream"

datatype effect =
    Pulled json
  | Enqueued string
  | CloseCalled
  | ErrorCalled js_error
  | ConsoleError string js_error
  | UpstreamCall create_params

datatype stream_state = Readable | Closed | Errored js_error

text \<open>
  A \<^verbatim>\<open>ReadableStreamDefaultController\<close>: the state of its stream and, in order, what the
  \<^verbatim>\<open>start\<close> callback did (pulls from upstream, chunks handed to the stream, close,
  error, console output). A chunk counts as written once it is enqueued; what becomes of it
  in the queue of the stream, and what the client receives, is \<open>replay\<close> below.
\<close>

record controller =
  state :: stream_state
  trace :: "effect list"

definition fresh_controller :: controller where
  "fresh_controller = \<lparr>state = Readable, trace = []\<rparr>"

definition emit :: "effect \<Rightarrow> controller \<Rightarrow> controller" where
  "emit x c = c\<lparr>trace := trace c @ [x]\<rparr>"

text \<open>\<^verbatim>\<open>controller.enqueue\<close> and \<^verbatim>\<open>controller.close\<close> throw a TypeError unless the stream is readable.\<close>

definition enqueue :: "string \<Rightarrow> controller \<Rightarrow> js_error + controller" where
  "enqueue chunk c =
     (if state c = Readable then Inr (emit (Enqueued chunk) c)
      else Inl (JsError ''Invalid state: ReadableStream is not readable''))"

definition close :: "controller \<Rightarrow> js_error + controller" where
  "close c =
     (if state c = Readable then Inr ((emit CloseCalled c)\<lparr>state := Closed\<rparr>)
      else Inl (JsError ''Invalid state: ReadableStream is not readable''))"

text \<open>
  \<^verbatim>\<open>controller.error\<close> never throws; it does nothing unless the stream is readable.
  On a readable stream it also resets the queue of the stream: the chunks that were
  enqueued and not yet read are discarded. The controller records the call; the queue and
  its reset are in \<open>apply_op\<close> below.
\<close>

definition error :: "js_error \<Rightarrow> controller \<Rightarrow> controller" where
  "error e c =
     (if state c = Readable then (emit (ErrorCalled e) c)\<lparr>state := Errored e\<rparr>
      else emit (ErrorCalled e) c)"

definition console_error :: "string \<Rightarrow> js_error \<Rightarrow> controller \<Rightarrow> controller" where
  "console_error msg e c = emit (ConsoleError msg e) c"

section \<open>The relay: \<^verbatim>\<open>start\<close>\<close>

text \<open>The object literal \<^verbatim>\<open>{ event: event.type, data: event }\<close>.\<close>

definition envelope :: "json option \<Rightarrow> json \<Rightarrow> (string \<times> json option) list" where
  "envelope ty event = [(''event'', ty), (''data'', Some event)]"

text \<open>The template literal around the serialised envelope.\<close>

definition sse_frame :: "string \<Rightarrow> string" where
  "sse_frame data = ''data: '' @ data @ [CHR 0x0A, CHR 0x0A]"

text \<open>One iteration of the loop body; \<open>Inl\<close> is a throw.\<close>

definition relay_event :: "json \<Rightarrow> controller \<Rightarrow> js_error + controller" where
  "relay_event event c =
     (case get_prop event ''type'' of
        Inl e \<Rightarrow> Inl e
      | Inr ty \<Rightarrow> enqueue (sse_frame (JSON_stringify_literal (envelope ty event))) c)"

text \<open>
  \<^verbatim>\<open>for await (const event of events) { ... }\<close>: the result is the controller when the
  loop is left, with the error if it was left by a throw.
\<close>

fun for_await :: "upstream \<Rightarrow> controller \<Rightarrow> js_error option \<times> controller" where
  "for_await Complete c = (None, c)"
| "for_await (Fault e) c = (Some e, c)"
| "for_await (Yield event rest) c =
     (case relay_event event (emit (Pulled event) c) of
        Inl e \<Rightarrow> (Some e, emit (Pulled event) c)
      | Inr c' \<Rightarrow> for_await rest c')"

definition on_stream_error :: "js_error \<Rightarrow> controller \<Rightarrow> js_error option \<times> controller" where
  "on_stream_error e c = (None, error e (console_error ''Error in streaming loop:'' e c))"

text \<open>
  \<^verbatim>\<open>start(controller)\<close>: the first component is the rejection of the returned promise, if any.
\<close>

definition start :: "upstream \<Rightarrow> controller \<Rightarrow> js_error option \<times> controller" where
  "start events c =
     (case for_await events c of
        (Some e, c1) \<Rightarrow> on_stream_error e c1
      | (None, c1) \<Rightarrow>
          (case close c1 of
             Inl e \<Rightarrow> on_stream_error e c1
           | Inr c2 \<Rightarrow> (None, c2)))"

text \<open>
  \<^verbatim>\<open>new ReadableStream({ start })\<close> runs \<^verbatim>\<open>start\<close> on a fresh controller and errors the
  stream if the promise of \<^verbatim>\<open>start\<close> rejects.
\<close>

definition ReadableStream_new :: "(controller \<Rightarrow> js_error option \<times> controller) \<Rightarrow> controller" where
  "ReadableStream_new f =
     (case f fresh_controller of
        (None, c) \<Rightarrow> c
      | (Some e, c) \<Rightarrow> (if state c = Readable then c\<lparr>state := Errored e\<rparr> else c))"

definition chunks :: "controller \<Rightarrow> string list" where
  "chunks c = concat (map (\<lambda>x. case x of Enqueued s \<Rightarrow> [s] | _ \<Rightarrow> []) (trace c))"

subsection \<open>The queue of the stream and its client\<close>

text \<open>
  The platform's side of the stream, after the Streams standard: the chunks enqueued and
  not yet read wait in a queue, the client takes chunks from its front, and
  \<^verbatim>\<open>controller.error\<close> on a stream that is not yet errored empties the queue
  (ResetQueue), so that the chunks still waiting are lost. A close leaves the queue as it
  is: the client can still read what waits there.
\<close>

record pipe =
  queue :: "string list"
  received :: "string list"
  errored :: bool


definition client_reads :: "nat \<Rightarrow> pipe \<Rightarrow> pipe" where
  "client_reads n p = p\<lparr>queue := drop n (queue p), received := received p @ take n (queue p)\<rparr>"

fun apply_op :: "effect \<Rightarrow> pipe \<Rightarrow> pipe" where
  "apply_op (Enqueued s) p = (if errored p then p else p\<lparr>queue := queue p @ [s]\<rparr>)"
| "apply_op (ErrorCalled e) p = (if errored p then p else p\<lparr>queue := [], errored := True\<rparr>)"
| "apply_op _ p = p"



section \<open>The gateway: \<^verbatim>\<open>fetch\<close>\<close>

datatype body = NoBody | TextBody string | StreamBody controller

record response =
  status :: nat
  headers :: "(string \<times> string) list"
  body :: body

text \<open>
  \<^verbatim>\<open>new Response(body, { status, headers })\<close>: the status defaults to 200, and a text body
  with no content type among the headers gets \<^verbatim>\<open>text/plain;charset=UTF-8\<close>.
\<close>

definition Response_new :: "body \<Rightarrow> nat option \<Rightarrow> (string \<times> string) list \<Rightarrow> response" where
  "Response_new b st hs =
     \<lparr>status = (case st of None \<Rightarrow> 200 | Some s \<Rightarrow> s),
      headers = hs @ (case b of
                        TextBody _ \<Rightarrow> (if ''Content-Type'' \<in> fst ` set hs then []
                                       else [(''Content-Type'', ''text/plain;charset=UTF-8'')])
                      | _ \<Rightarrow> []),
      body = b\<rparr>"

text \<open>
  The request as the handler reads it: \<^verbatim>\<open>request.method\<close>, the path of
  \<^verbatim>\<open>new URL(request.url)\<close>, and what \<^verbatim>\<open>await request.json()\<close> gives
  (\<open>Inl\<close>: it throws).
\<close>

record request =
  http_method :: string
  pathname :: string
  json :: "js_error + json"

record env =
  OPENAI_API_KEY :: "string option"

record outcome =
  response :: response
  log :: "effect list"

definition corsHeaders :: "(string \<times> string) list" where
  "corsHeaders =
     [(''Access-Control-Allow-Origin'', ''*''),
      (''Access-Control-Allow-Methods'', ''GET, POST, OPTIONS''),
      (''Access-Control-Allow-Headers'', ''Content-Type'')]"

definition html :: string where
  "html =
   ''<!DOCTYPE html>\<newline>'' @
   ''      <html lang=\"en\">\<newline>'' @
   ''      <head>\<newline>'' @
   ''        <meta charset=\"UTF-8\">\<newline>'' @
   ''        <meta name=\"viewport\" content=\"width=device-width, initial-scale=1.0\">\<newline>'' @
   ''        <title>OpenAI SDK Streaming API</title>\<newline>'' @
   ''        <style>\<newline>'' @
   ''          body { font-family: -apple-system, BlinkMacSystemFont, 'Segoe UI', Roboto, Helvetica, Arial, sans-serif; line-height: 1.6; color: #333; max-width: 800px; margin: 0 auto; padding: 20px; }\<newline>'' @
   ''          h1 { color: #2563eb; }\<newline>'' @
   ''          code { background: #f4f4f4; padding: 2px 5px; border-radius: 3px; font-family: monospace; }\<newline>'' @
   ''          pre { background: #f4f4f4; padding: 15px; border-radius: 5px; overflow-x: auto; }\<newline>'' @
   ''          .example { margin: 20px 0; }\<newline>'' @
   ''          .endpoint { font-weight: bold; color: #2563eb; }\<newline>'' @
   ''        </style>\<newline>'' @
   ''      </head>\<newline>'' @
   ''      <body>\<newline>'' @
   ''        <h1>OpenAI SDK Streaming API</h1>\<newline>'' @
   ''        <p>This is a Cloudflare Worker that provides streaming access to OpenAI's API.</p>\<newline>'' @
   ''        \<newline>'' @
   ''        <h2>Endpoints</h2>\<newline>'' @
   ''        <div class=\"endpoint\">/api/turn_response</div>\<newline>'' @
   ''        <p>Accepts POST requests with messages and optional tools, returning a streaming SSE response from OpenAI.</p>\<newline>'' @
   ''        \<newline>'' @
   ''        <h2>Example Usage</h2>\<newline>'' @
   ''        <div class=\"example\">\<newline>'' @
   ''          <pre><code>// Example fetch request\<newline>'' @
   ''const response = await fetch('/api/turn_response', {\<newline>'' @
   ''  method: 'POST',\<newline>'' @
   ''  headers: {\<newline>'' @
   ''    'Content-Type': 'application/json'\<newline>'' @
   ''  },\<newline>'' @
   ''  body: JSON.stringify({\<newline>'' @
   ''    messages: [\<newline>'' @
   ''      { role: 'system', content: 'You are a helpful assistant.' },\<newline>'' @
   ''      { role: 'user', content: 'Hello, how are you?' }\<newline>'' @
   ''    ]\<newline>'' @
   ''  })\<newline>'' @
   ''});\<newline>'' @
   ''\<newline>'' @
   ''// Process the SSE stream\<newline>'' @
   ''const reader = response.body.getReader();\<newline>'' @
   ''const decoder = new TextDecoder();\<newline>'' @
   ''\<newline>'' @
   ''while (true) {\<newline>'' @
   ''  const { done, value } = await reader.read();\<newline>'' @
   ''  if (done) break;\<newline>'' @
   ''  \<newline>'' @
   ''  const text = decoder.decode(value);\<newline>'' @
   ''  // Process the SSE data\<newline>'' @
   ''  console.log(text);\<newline>'' @
   ''}</code></pre>\<newline>'' @
   ''        </div>\<newline>'' @
   ''        \<newline>'' @
   ''        <p>For more information, check the <a href=\"https://github.com/82deutschmark/openai-sdk-streaming\" target=\"_blank\">GitHub repository</a>.</p>\<newline>'' @
   ''      </body>\<newline>'' @
   ''      </html>''"

text \<open>
  \<^verbatim>\<open>const { messages, tools } = requestData\<close>: destructuring \<^verbatim>\<open>null\<close> throws.
\<close>

definition destructure :: "json \<Rightarrow> js_error + (json option \<times> json option)" where
  "destructure requestData =
     (case requestData of
        JNull \<Rightarrow> Inl (JsError (''Cannot destructure property '' @ [CHR 0x27] @ ''messages'' @ [CHR 0x27]
                   @ '' of '' @ [CHR 0x27] @ ''requestData'' @ [CHR 0x27] @ '' as it is null.''))
      | JObj ps \<Rightarrow> Inr (map_of ps ''messages'', map_of ps ''tools'')
      | _ \<Rightarrow> Inr (None, None))"

text \<open>The \<^verbatim>\<open>try\<close> block of the POST branch: \<open>Inl\<close> is what it throws.\<close>

definition turn_response :: "provider \<Rightarrow> request \<Rightarrow> env \<Rightarrow> (js_error + response) \<times> effect list" where
  "turn_response sdk request env =
     (case json request of
        Inl e \<Rightarrow> (Inl e, [])
      | Inr requestData \<Rightarrow>
     (case destructure requestData of
        Inl e \<Rightarrow> (Inl e, [])
      | Inr (messages, tools') \<Rightarrow>
     (case new_OpenAI sdk (OPENAI_API_KEY env) of
        Inl e \<Rightarrow> (Inl e, [])
      | Inr openai \<Rightarrow>
     (let params = \<lparr>model = MODEL, input = messages, tools = tools',
                    stream = True, parallel_tool_calls = False\<rparr>
      in case responses_create sdk openai params of
           Inl e \<Rightarrow> (Inl e, [UpstreamCall params])
         | Inr events \<Rightarrow>
             (Inr (Response_new (StreamBody (ReadableStream_new (start events))) None
                     ([(''Content-Type'', ''text/event-stream''),
                       (''Cache-Control'', ''no-cache''),
                       (''Connection'', ''keep-alive'')] @ corsHeaders)),
              [UpstreamCall params])))))"

definition error_message :: "js_error \<Rightarrow> string" where
  "error_message e = (case e of JsError m \<Rightarrow> m | NonError \<Rightarrow> ''Unknown error'')"

definition error_response :: "js_error \<Rightarrow> response" where
  "error_response e =
     Response_new (TextBody (JSON_stringify_literal [(''error'', Some (JStr (error_message e)))]))
       (Some 500) ((''Content-Type'', ''application/json'') # corsHeaders)"

definition fetch :: "provider \<Rightarrow> request \<Rightarrow> env \<Rightarrow> outcome" where
  "fetch sdk request env =
     (if http_method request = ''OPTIONS''
        then \<lparr>response = Response_new NoBody None corsHeaders, log = []\<rparr>
      else if http_method request = ''GET''
        then \<lparr>response = Response_new (TextBody html) None
                           ((''Content-Type'', ''text/html'') # corsHeaders),
              log = []\<rparr>
      else if http_method request = ''POST''
        then (if pathname request \<noteq> ''/api/turn_response''
                then \<lparr>response = Response_new (TextBody ''Not found'') (Some 404) [], log = []\<rparr>
              else (case turn_response sdk request env of
                      (Inr r, l) \<Rightarrow> \<lparr>response = r, log = l\<rparr>
                    | (Inl e, l) \<Rightarrow>
                        \<lparr>response = error_response e,
                         log = l @ [ConsoleError ''Error in handler:'' e]\<rparr>))
      else \<lparr>response = Response_new (TextBody ''Method not allowed'') (Some 405) corsHeaders,
            log = []\<rparr>)"

section \<open>JSON.parse, as a consumer of the stream applies it\<close>

text \<open>
  The decoder of the frames is not part of the worker; it is the platform's
  \<^verbatim>\<open>JSON.parse\<close>, modelled here to state what a consumer recovers from a frame.
  \<open>None\<close> stands for a SyntaxError, and also for a text whose value lies outside these
  JSON values: a number written with a fraction or an exponent, negative zero, an integer
  beyond the safe range \<open>2^53 - 1\<close>, or a \<^verbatim>\<open>\u\<close> escape above 255.
\<close>

definition is_ws :: "char \<Rightarrow> bool" where
  "is_ws c = (c = CHR 0x20 \<or> c = CHR 0x09 \<or> c = CHR 0x0A \<or> c = CHR 0x0D)"

definition skip_ws :: "string \<Rightarrow> string" where
  "skip_ws s = dropWhile is_ws s"

definition is_digit :: "char \<Rightarrow> bool" where
  "is_digit c = (48 \<le> (of_char c :: nat) \<and> (of_char c :: nat) \<le> 57)"

definition digit_val :: "char \<Rightarrow> nat" where
  "digit_val c = of_char c - 48"

definition hex_val :: "char \<Rightarrow> nat option" where
  "hex_val c =
     (let n = (of_char c :: nat) in
      if 48 \<le> n \<and> n \<le> 57 then Some (n - 48)
      else if 97 \<le> n \<and> n \<le> 102 then Some (n - 87)
      else if 65 \<le> n \<and> n \<le> 70 then Some (n - 55)
      else None)"

definition unescape :: "char \<Rightarrow> char option" where
  "unescape e =
     (if e = CHR 0x22 then Some (CHR 0x22)
      else if e = CHR 0x5C then Some (CHR 0x5C)
      else if e = CHR ''/'' then Some (CHR ''/'')
      else if e = CHR ''b'' then Some (CHR 0x08)
      else if e = CHR ''f'' then Some (CHR 0x0C)
      else if e = CHR ''n'' then Some (CHR 0x0A)
      else if e = CHR ''r'' then Some (CHR 0x0D)
      else if e = CHR ''t'' then Some (CHR 0x09)
      else None)"

definition unicode_escape :: "string \<Rightarrow> char option" where
  "unicode_escape h =
     (case map hex_val h of
        [Some a, Some b, Some c, Some d] \<Rightarrow>
          (let n = ((a * 16 + b) * 16 + c) * 16 + d in if n < 256 then Some (char_of n) else None)
      | _ \<Rightarrow> None)"

definition push :: "'a \<Rightarrow> ('a list \<times> 'b) option \<Rightarrow> ('a list \<times> 'b) option" where
  "push x r = (case r of None \<Rightarrow> None | Some (xs, rest) \<Rightarrow> Some (x # xs, rest))"

text \<open>The characters of a string literal after its opening quote, up to the closing one.\<close>

function parse_chars :: "string \<Rightarrow> (string \<times> string) option" where
  "parse_chars [] = None"
| "parse_chars (c # cs) =
     (if c = CHR 0x22 then Some ([], cs)
      else if c = CHR 0x5C then
        (case cs of
           [] \<Rightarrow> None
         | e # r \<Rightarrow>
             if e = CHR ''u'' then
               (if length r < 4 then None
                else case unicode_escape (take 4 r) of
                       None \<Rightarrow> None
                     | Some x \<Rightarrow> push x (parse_chars (drop 4 r)))
             else (case unescape e of
                     None \<Rightarrow> None
                   | Some x \<Rightarrow> push x (parse_chars r)))
      else if (of_char c :: nat) < 0x20 then None
      else push c (parse_chars cs))"
  by pat_completeness auto
termination
  by (relation "measure length") auto

definition digits_value :: "string \<Rightarrow> nat" where
  "digits_value ds = foldl (\<lambda>a d. 10 * a + digit_val d) 0 ds"

definition parse_nat :: "string \<Rightarrow> (nat \<times> string) option" where
  "parse_nat s =
     (let ds = takeWhile is_digit s; rest = dropWhile is_digit s in
      if ds = [] then None
      else if hd ds = CHR ''0'' \<and> length ds > 1 then None
      else if rest \<noteq> [] \<and> hd rest \<in> {CHR ''.'', CHR ''e'', CHR ''E''} then None
      else Some (digits_value ds, rest))"

definition parse_number :: "string \<Rightarrow> (json \<times> string) option" where
  "parse_number s =
     (case s of
        [] \<Rightarrow> None
      | c # cs \<Rightarrow>
          if c = CHR ''-'' then
            (case parse_nat cs of
               None \<Rightarrow> None
             | Some (n, rest) \<Rightarrow>
                 if n = 0 \<or> int n > 9007199254740991 then None else Some (JNum (- int n), rest))
          else
            (case parse_nat s of
               None \<Rightarrow> None
             | Some (n, rest) \<Rightarrow>
                 if int n > 9007199254740991 then None else Some (JNum (int n), rest)))"

text \<open>
  Properties are created in the order of the text; a repeated key overwrites the value in
  place. The own keys of an object enumerate array indices first, in ascending order, then
  the other keys in creation order.
\<close>

definition set_prop :: "(string \<times> json) list \<Rightarrow> string \<times> json \<Rightarrow> (string \<times> json) list" where
  "set_prop ps kv =
     (if fst kv \<in> fst ` set ps then map (\<lambda>p. if fst p = fst kv then kv else p) ps
      else ps @ [kv])"

definition is_array_index :: "string \<Rightarrow> bool" where
  "is_array_index k =
     (k \<noteq> [] \<and> list_all is_digit k \<and>
      digits (digits_value k) = k \<and> int (digits_value k) < 4294967295)"

definition own_keys_order :: "(string \<times> json) list \<Rightarrow> (string \<times> json) list" where
  "own_keys_order ps =
     sort_key (\<lambda>p. digits_value (fst p)) (filter (\<lambda>p. is_array_index (fst p)) ps)
     @ filter (\<lambda>p. \<not> is_array_index (fst p)) ps"

definition object_of :: "(string \<times> json) list \<Rightarrow> json" where
  "object_of raw = JObj (own_keys_order (foldl set_prop [] raw))"

text \<open>
  Recursive descent with fuel: every call spends one unit, and \<open>JSON_parse\<close> starts
  with one unit more than the length of the text. That this is enough for every text that
  \<open>JSON_stringify\<close> produces is part of the round-trip lemma below.
\<close>

fun parse_value :: "nat \<Rightarrow> string \<Rightarrow> (json \<times> string) option"
  and parse_elements :: "nat \<Rightarrow> string \<Rightarrow> (json list \<times> string) option"
  and parse_members :: "nat \<Rightarrow> string \<Rightarrow> ((string \<times> json) list \<times> string) option" where
  "parse_value 0 s = None"
| "parse_value (Suc f) s =
     (case skip_ws s of
        [] \<Rightarrow> None
      | c # cs \<Rightarrow>
          if c = CHR ''{'' then
            (case skip_ws cs of
               [] \<Rightarrow> None
             | d # ds \<Rightarrow>
                 if d = CHR ''}'' then Some (JObj [], ds)
                 else (case parse_members f cs of
                         None \<Rightarrow> None
                       | Some (ps, rest) \<Rightarrow> Some (object_of ps, rest)))
          else if c = CHR ''['' then
            (case skip_ws cs of
               [] \<Rightarrow> None
             | d # ds \<Rightarrow>
                 if d = CHR '']'' then Some (JArr [], ds)
                 else (case parse_elements f cs of
                         None \<Rightarrow> None
                       | Some (xs, rest) \<Rightarrow> Some (JArr xs, rest)))
          else if c = CHR 0x22 then
            (case parse_chars cs of
               None \<Rightarrow> None
             | Some (str, rest) \<Rightarrow> Some (JStr str, rest))
          else if take 4 (c # cs) = ''null'' then Some (JNull, drop 4 (c # cs))
          else if take 4 (c # cs) = ''true'' then Some (JBool True, drop 4 (c # cs))
          else if take 5 (c # cs) = ''false'' then Some (JBool False, drop 5 (c # cs))
          else parse_number (c # cs))"
| "parse_elements 0 s = None"
| "parse_elements (Suc f) s =
     (case parse_value f s of
        None \<Rightarrow> None
      | Some (x, rest) \<Rightarrow>
          (case skip_ws rest of
             [] \<Rightarrow> None
           | d # ds \<Rightarrow>
               if d = CHR '','' then push x (parse_elements f ds)
               else if d = CHR '']'' then Some ([x], ds)
               else None))"
| "parse_members 0 s = None"
| "parse_members (Suc f) s =
     (case skip_ws s of
        [] \<Rightarrow> None
      | q # cs \<Rightarrow>
          if q \<noteq> CHR 0x22 then None
          else (case parse_chars cs of
                  None \<Rightarrow> None
                | Some (k, rest) \<Rightarrow>
                    (case skip_ws rest of
                       [] \<Rightarrow> None
                     | colon # after \<Rightarrow>
                         if colon \<noteq> CHR '':'' then None
                         else (case parse_value f after of
                                 None \<Rightarrow> None
                               | Some (v, rest') \<Rightarrow>
                                   (case skip_ws rest' of
                                      [] \<Rightarrow> None
                                    | d # ds \<Rightarrow>
                                        if d = CHR '','' then push (k, v) (parse_members f ds)
                                        else if d = CHR ''}'' then Some ([(k, v)], ds)
                                        else None)))))"

definition JSON_parse :: "string \<Rightarrow> json option" where
  "JSON_parse s =
     (case parse_value (Suc (length s)) s of
        None \<Rightarrow> None
      | Some (v, rest) \<Rightarrow> if skip_ws rest = [] then Some v else None)"

text \<open>
  The JSON values that stand for a JavaScript value: numbers are safe integers, and the
  property list of an object has distinct keys in enumeration order.
\<close>

fun wf_json :: "json \<Rightarrow> bool" where
  "wf_json JNull = True"
| "wf_json (JBool b) = True"
| "wf_json (JNum i) = (\<bar>i\<bar> \<le> 9007199254740991)"
| "wf_json (JStr s) = True"
| "wf_json (JArr xs) = (\<forall>x \<in> set xs. wf_json x)"
| "wf_json (JObj ps) =
     (distinct (map fst ps) \<and> own_keys_order ps = ps \<and> (\<forall>p \<in> set ps. wf_json (snd p)))"

section \<open>Notions used to state the properties\<close>

text \<open>The envelope as it is serialised for an event, and the chunk written for it.\<close>

definition envelope_json :: "json \<Rightarrow> json" where
  "envelope_json event =
     defined_props (envelope (case get_prop event ''type'' of Inl _ \<Rightarrow> None | Inr ty \<Rightarrow> ty) event)"

definition frame_of :: "json \<Rightarrow> string" where
  "frame_of event = sse_frame (JSON_stringify (envelope_json event))"

text \<open>What relaying a sequence of events leaves in the trace: a pull, then its frame, in order.\<close>

definition relayed :: "json list \<Rightarrow> effect list" where
  "relayed evs = concat (map (\<lambda>ev. [Pulled ev, Enqueued (frame_of ev)]) evs)"

definition closing :: "js_error option \<Rightarrow> effect list" where
  "closing r = (case r of None \<Rightarrow> [CloseCalled]
                | Some e \<Rightarrow> [ConsoleError ''Error in streaming loop:'' e, ErrorCalled e])"

definition upstream_calls :: "effect list \<Rightarrow> create_params list" where
  "upstream_calls l = concat (map (\<lambda>x. case x of UpstreamCall p \<Rightarrow> [p] | _ \<Rightarrow> []) l)"

definition stream_headers :: "(string \<times> string) list" where
  "stream_headers =
     [(''Content-Type'', ''text/event-stream''), (''Cache-Control'', ''no-cache''),
      (''Connection'', ''keep-alive''),
      (''Access-Control-Allow-Origin'', ''*''),
      (''Access-Control-Allow-Methods'', ''GET, POST, OPTIONS''),
      (''Access-Control-Allow-Headers'', ''Content-Type'')]"

definition json_error_headers :: "(string \<times> string) list" where
  "json_error_headers =
     [(''Content-Type'', ''application/json''),
      (''Access-Control-Allow-Origin'', ''*''),
      (''Access-Control-Allow-Methods'', ''GET, POST, OPTIONS''),
      (''Access-Control-Allow-Headers'', ''Content-Type'')]"

definition has_cors :: "response \<Rightarrow> bool" where
  "has_cors r =
     (map_of (headers r) ''Access-Control-Allow-Origin'' = Some ''*''
      \<and> map_of (headers r) ''Access-Control-Allow-Methods'' = Some ''GET, POST, OPTIONS''
      \<and> map_of (headers r) ''Access-Control-Allow-Headers'' = Some ''Content-Type'')"

text \<open>After a serialised value inside an array or an object comes a comma or a closing bracket.\<close>

definition follow_ok :: "string \<Rightarrow> bool" where
  "follow_ok rest = (rest = [] \<or> hd rest \<in> {CHR '','', CHR '']'', CHR ''}''})"

definition value_start :: "char \<Rightarrow> bool" where
  "value_start c = (\<not> is_ws c \<and> c \<noteq> CHR '']'' \<and> c \<noteq> CHR ''}'')"


subsection \<open>Stubs for the provider, and sample inputs\<close>

definition stub_sdk :: "upstream \<Rightarrow> provider" where
  "stub_sdk u = \<lparr>new_OpenAI = (\<lambda>k. Inr (Client k)), responses_create = (\<lambda>c p. Inr u)\<rparr>"

definition rejecting_sdk :: "js_error \<Rightarrow> provider" where
  "rejecting_sdk e = \<lparr>new_OpenAI = (\<lambda>k. Inr (Client k)), responses_create = (\<lambda>c p. Inl e)\<rparr>"

definition failing_sdk :: "js_error \<Rightarrow> provider" where
  "failing_sdk e = \<lparr>new_OpenAI = (\<lambda>k. Inl e), responses_create = (\<lambda>c p. Inr Complete)\<rparr>"

definition delta_event :: json where
  "delta_event = JObj [(''type'', JStr ''response.output_text.delta''), (''delta'', JStr ''hi'')]"

definition done_event :: json where
  "done_event = JObj [(''type'', JStr ''response.completed''), (''sequence_number'', JNum 2)]"

definition post_turn :: "js_error + json \<Rightarrow> request" where
  "post_turn b = \<lparr>http_method = ''POST'', pathname = ''/api/turn_response'', json = b\<rparr>"

definition test_env :: env where
  "test_env = \<lparr>OPENAI_API_KEY = Some ''sk-test''\<rparr>"

section \<open>Serialising and parsing back\<close>

lemma upt16: "[0..<16] = [0,1,2,3,4,5,6,7,8,9,10,11,12,13,14,15::nat]"
  by (simp add: upt_rec)

lemma upt10: "[0..<10] = [0,1,2,3,4,5,6,7,8,9::nat]"
  by (simp add: upt_rec)

lemma hex_val_hex_digit: "d < 16 \<Longrightarrow> hex_val (hex_digit d) = Some d"
proof -
  assume "d < 16"
  then have "d \<in> set [0..<16]" by simp
  then have "d \<in> set [0,1,2,3,4,5,6,7,8,9,10,11,12,13,14,15::nat]" by (simp only: upt16)
  then show ?thesis
    by (auto simp: hex_val_def hex_digit_def)
qed

lemma unicode_escape_control:
  assumes "(of_char c :: nat) < 0x20"
  shows "unicode_escape [CHR ''0'', CHR ''0'', hex_digit (of_char c div 16), hex_digit (of_char c mod 16)] = Some c"
proof -
  let ?n = "of_char c :: nat"
  have a: "hex_val (hex_digit (?n div 16)) = Some (?n div 16)"
    using assms by (intro hex_val_hex_digit) simp
  have b: "hex_val (hex_digit (?n mod 16)) = Some (?n mod 16)"
    by (intro hex_val_hex_digit) simp
  have z: "hex_val (CHR ''0'') = Some 0" by (simp add: hex_val_def)
  have "?n div 16 * 16 + ?n mod 16 = ?n" by simp
  moreover have "?n < 256" using assms by simp
  ultimately show ?thesis
    using a b z by (simp add: unicode_escape_def)
qed

lemma push_Some [simp]: "push x (Some (xs, r)) = Some (x # xs, r)"
  by (simp add: push_def)

lemma parse_chars_quote_char:
  "parse_chars (quote_char c @ t) = push c (parse_chars t)"
proof -
  consider (short) "c \<in> {CHR 0x08, CHR 0x09, CHR 0x0A, CHR 0x0C, CHR 0x0D, CHR 0x22, CHR 0x5C}"
    | (ctl) "c \<notin> {CHR 0x08, CHR 0x09, CHR 0x0A, CHR 0x0C, CHR 0x0D, CHR 0x22, CHR 0x5C}"
            "(of_char c :: nat) < 0x20"
    | (plain) "c \<notin> {CHR 0x08, CHR 0x09, CHR 0x0A, CHR 0x0C, CHR 0x0D, CHR 0x22, CHR 0x5C}"
            "\<not> (of_char c :: nat) < 0x20"
    by blast
  then show ?thesis
  proof cases
    case short
    then show ?thesis
      by (elim insertE emptyE) (simp_all add: quote_char_def unescape_def)
  next
    case ctl
    then have q: "quote_char c = [CHR 0x5C, CHR ''u'', CHR ''0'', CHR ''0'',
                hex_digit (of_char c div 16), hex_digit (of_char c mod 16)]"
      by (simp add: quote_char_def)
    show ?thesis using ctl(2) unicode_escape_control[of c]
      by (simp add: q)
  next
    case plain
    then have q: "quote_char c = [c]"
      by (simp add: quote_char_def)
    show ?thesis using plain by (simp add: q)
  qed
qed

lemma parse_chars_quoted:
  "parse_chars (concat (map quote_char s) @ CHR 0x22 # rest) = Some (s, rest)"
  by (induction s) (simp_all add: parse_chars_quote_char)

lemma of_char_digit_char: "d < 10 \<Longrightarrow> (of_char (digit_char d) :: nat) = 48 + d"
proof -
  assume "d < 10"
  then have "d \<in> set [0..<10]" by simp
  then have "d \<in> set [0,1,2,3,4,5,6,7,8,9::nat]" by (simp only: upt10)
  then show ?thesis by (auto simp: digit_char_def)
qed

lemma is_digit_digit_char: "d < 10 \<Longrightarrow> is_digit (digit_char d)"
  by (simp add: is_digit_def of_char_digit_char)

lemma digit_val_digit_char: "d < 10 \<Longrightarrow> digit_val (digit_char d) = d"
  by (simp add: digit_val_def of_char_digit_char)

lemma digit_char_zero: "d < 10 \<Longrightarrow> digit_char d = CHR ''0'' \<longleftrightarrow> d = 0"
proof
  assume "d < 10" and "digit_char d = CHR ''0''"
  then have "(of_char (digit_char d) :: nat) = of_char (CHR ''0'')" by simp
  then show "d = 0" using \<open>d < 10\<close> by (simp add: of_char_digit_char)
next
  assume "d = 0"
  then show "digit_char d = CHR ''0''" by (simp add: digit_char_def)
qed

lemma digits_all_digit: "list_all is_digit (digits n)"
proof (induction n rule: digits.induct)
  case (1 n)
  then show ?case
    by (subst digits.simps) (simp add: is_digit_digit_char)
qed

lemma digits_nonempty: "digits n \<noteq> []"
  by (subst digits.simps) simp

lemma digits_value_digits: "digits_value (digits n) = n"
proof (induction n rule: digits.induct)
  case (1 n)
  then show ?case
    unfolding digits_value_def
    by (subst digits.simps) (simp add: digit_val_digit_char)
qed

lemma digits_no_leading_zero: "0 < n \<Longrightarrow> hd (digits n) \<noteq> CHR ''0''"
proof (induction n rule: digits.induct)
  case (1 n)
  show ?case
  proof (cases "n < 10")
    case True
    then show ?thesis using "1.prems" by (subst digits.simps) (simp add: digit_char_zero)
  next
    case False
    then have "0 < n div 10" by simp
    with False "1.IH" have "hd (digits (n div 10)) \<noteq> CHR ''0''" by simp
    then show ?thesis using False by (subst digits.simps) (simp add: digits_nonempty)
  qed
qed

lemma digits_single: "n < 10 \<Longrightarrow> length (digits n) = 1"
  by (subst digits.simps) simp

lemma follow_ok_not_digit: "follow_ok rest \<Longrightarrow> rest = [] \<or> \<not> is_digit (hd rest)"
  by (auto simp: follow_ok_def is_digit_def)

lemma follow_ok_not_frac:
  "follow_ok rest \<Longrightarrow> rest \<noteq> [] \<Longrightarrow> hd rest \<notin> {CHR ''.'', CHR ''e'', CHR ''E''}"
  by (auto simp: follow_ok_def)

lemma follow_ok_simps [simp]:
  "follow_ok []" "follow_ok (CHR '','' # s)" "follow_ok (CHR '']'' # s)" "follow_ok (CHR ''}'' # s)"
  by (simp_all add: follow_ok_def)

lemma takeWhile_digits:
  assumes "follow_ok rest"
  shows "takeWhile is_digit (digits n @ rest) = digits n"
    and "dropWhile is_digit (digits n @ rest) = rest"
proof -
  have a: "\<forall>c \<in> set (digits n). is_digit c"
    using digits_all_digit[of n] by (simp add: list_all_iff)
  have b: "takeWhile is_digit rest = []" "dropWhile is_digit rest = rest"
    using follow_ok_not_digit[OF assms] by (cases rest; simp)+
  show "takeWhile is_digit (digits n @ rest) = digits n"
    using a b by simp
  show "dropWhile is_digit (digits n @ rest) = rest"
    using a b by simp
qed

lemma parse_nat_digits:
  assumes "follow_ok rest"
  shows "parse_nat (digits n @ rest) = Some (n, rest)"
proof -
  have lead: "\<not> (hd (digits n) = CHR ''0'' \<and> length (digits n) > 1)"
  proof (cases "n < 10")
    case True
    then show ?thesis by (simp add: digits_single)
  next
    case False
    then show ?thesis using digits_no_leading_zero[of n] by simp
  qed
  have frac: "\<not> (rest \<noteq> [] \<and> hd rest \<in> {CHR ''.'', CHR ''e'', CHR ''E''})"
    using follow_ok_not_frac[OF assms] by blast
  show ?thesis
    unfolding parse_nat_def Let_def takeWhile_digits[OF assms]
    using lead frac by (simp add: digits_nonempty digits_value_digits)
qed

lemma digits_head: "\<exists>c cs. digits n = c # cs \<and> is_digit c"
  using digits_nonempty[of n] digits_all_digit[of n] by (cases "digits n") simp_all

lemma parse_number_show_int:
  assumes "follow_ok rest" and "\<bar>i\<bar> \<le> 9007199254740991"
  shows "parse_number (show_int i @ rest) = Some (JNum i, rest)"
proof (cases "i < 0")
  case True
  then have "show_int i @ rest = CHR ''-'' # (digits (nat (- i)) @ rest)"
    by (simp add: show_int_def)
  moreover have "nat (- i) \<noteq> 0" "int (nat (- i)) \<le> 9007199254740991" "- int (nat (- i)) = i"
    using True assms(2) by simp_all
  ultimately show ?thesis
    using parse_nat_digits[OF assms(1), of "nat (- i)"]
    by (simp add: parse_number_def)
next
  case False
  obtain c cs where d: "digits (nat i) = c # cs" "is_digit c"
    using digits_head by blast
  have ne: "c \<noteq> CHR ''-''" using d(2) by (auto simp: is_digit_def)
  have s: "show_int i @ rest = c # (cs @ rest)" using False d by (simp add: show_int_def)
  have p: "parse_nat (c # (cs @ rest)) = Some (nat i, rest)"
    using parse_nat_digits[OF assms(1), of "nat i"] d by simp
  have "int (nat i) \<le> 9007199254740991" "int (nat i) = i" using False assms(2) by simp_all
  then show ?thesis
    unfolding s using ne p by (simp add: parse_number_def)
qed

lemma foldl_set_prop:
  "distinct (map fst (acc @ ps)) \<Longrightarrow> foldl set_prop acc ps = acc @ ps"
proof (induction ps arbitrary: acc)
  case Nil
  then show ?case by simp
next
  case (Cons p ps)
  have "fst p \<notin> fst ` set acc" using Cons.prems by auto
  then have "set_prop acc p = acc @ [p]" by (simp add: set_prop_def)
  moreover have "distinct (map fst ((acc @ [p]) @ ps))" using Cons.prems by simp
  ultimately show ?case using Cons.IH[of "acc @ [p]"] by simp
qed

lemma object_of_wf:
  "distinct (map fst ps) \<Longrightarrow> own_keys_order ps = ps \<Longrightarrow> object_of ps = JObj ps"
  using foldl_set_prop[of "[]" ps] by (simp add: object_of_def)

lemma skip_ws_Cons: "\<not> is_ws c \<Longrightarrow> skip_ws (c # cs) = c # cs"
  by (simp add: skip_ws_def)

lemma parse_value_null: "parse_value (Suc f) (''null'' @ rest) = Some (JNull, rest)"
  by (simp add: skip_ws_def is_ws_def)

lemma parse_value_true: "parse_value (Suc f) (''true'' @ rest) = Some (JBool True, rest)"
  by (simp add: skip_ws_def is_ws_def)

lemma parse_value_false: "parse_value (Suc f) (''false'' @ rest) = Some (JBool False, rest)"
  by (simp add: skip_ws_def is_ws_def)

lemma parse_value_string: "parse_value (Suc f) (quote s @ rest) = Some (JStr s, rest)"
  by (simp add: skip_ws_def is_ws_def quote_def parse_chars_quoted)

lemma show_int_head: "\<exists>c cs. show_int i = c # cs \<and> (c = CHR ''-'' \<or> is_digit c)"
proof (cases "i < 0")
  case True
  then show ?thesis by (simp add: show_int_def)
next
  case False
  then show ?thesis using digits_head[of "nat i"] by (auto simp: show_int_def)
qed

lemma number_head:
  assumes "c = CHR ''-'' \<or> is_digit c"
  shows "\<not> is_ws c" "c \<noteq> CHR ''{''" "c \<noteq> CHR ''[''" "c \<noteq> CHR 0x22" "c \<noteq> CHR '']''" "c \<noteq> CHR ''}''"
    "c \<noteq> CHR ''n''" "c \<noteq> CHR ''t''" "c \<noteq> CHR ''f''"
  using assms by (auto simp: is_digit_def is_ws_def)

lemma parse_value_number:
  assumes "follow_ok rest" and "\<bar>i\<bar> \<le> 9007199254740991"
  shows "parse_value (Suc f) (show_int i @ rest) = Some (JNum i, rest)"
proof -
  obtain c cs where s: "show_int i = c # cs" and h: "c = CHR ''-'' \<or> is_digit c"
    using show_int_head by blast
  have p: "parse_number (c # cs @ rest) = Some (JNum i, rest)"
    using parse_number_show_int[OF assms] s by simp
  show ?thesis
    unfolding s using number_head[OF h] p
    by (simp add: skip_ws_Cons)
qed

lemma quote_head: "quote s = CHR 0x22 # (concat (map quote_char s) @ [CHR 0x22])"
  by (simp add: quote_def)

lemma stringify_head: "\<exists>c cs. JSON_stringify v = c # cs \<and> value_start c"
proof (cases v)
  case (JNum i)
  obtain c cs where "show_int i = c # cs" "c = CHR ''-'' \<or> is_digit c"
    using show_int_head by blast
  then show ?thesis using JNum number_head[of c] by (simp add: value_start_def)
qed (simp_all add: value_start_def is_ws_def quote_head)

lemma elements_head: "xs \<noteq> [] \<Longrightarrow> \<exists>c cs. stringify_elements xs = c # cs \<and> value_start c"
proof (cases xs)
  case Nil
  assume "xs \<noteq> []"
  with Nil show ?thesis by simp
next
  case (Cons x ys)
  obtain c cs where "JSON_stringify x = c # cs" "value_start c"
    using stringify_head by blast
  then show ?thesis using Cons by (cases ys) simp_all
qed

lemma members_head:
  "ps \<noteq> [] \<Longrightarrow> \<exists>cs. stringify_members ps = CHR 0x22 # cs"
proof (cases ps)
  case Nil
  assume "ps \<noteq> []"
  with Nil show ?thesis by simp
next
  case (Cons p qs)
  then show ?thesis by (cases p; cases qs) (simp_all add: quote_head)
qed

lemma parse_value_array:
  assumes "parse_elements f (inner @ CHR '']'' # rest) = Some (xs, rest)"
    and "inner = c # cs" and "value_start c"
  shows "parse_value (Suc f) (CHR ''['' # inner @ CHR '']'' # rest) = Some (JArr xs, rest)"
  using assms by (simp add: skip_ws_def is_ws_def value_start_def)

lemma parse_value_empty_array:
  "parse_value (Suc f) (CHR ''['' # CHR '']'' # rest) = Some (JArr [], rest)"
  by (simp add: skip_ws_def is_ws_def)

lemma parse_value_object:
  assumes "parse_members f (inner @ CHR ''}'' # rest) = Some (ps, rest)"
    and "inner = CHR 0x22 # cs"
  shows "parse_value (Suc f) (CHR ''{'' # inner @ CHR ''}'' # rest) = Some (object_of ps, rest)"
  using assms by (simp add: skip_ws_def is_ws_def)

lemma parse_value_empty_object:
  "parse_value (Suc f) (CHR ''{'' # CHR ''}'' # rest) = Some (JObj [], rest)"
  by (simp add: skip_ws_def is_ws_def)

lemma parse_elements_last:
  assumes "parse_value f (t @ CHR '']'' # rest) = Some (x, CHR '']'' # rest)"
  shows "parse_elements (Suc f) (t @ CHR '']'' # rest) = Some ([x], rest)"
  using assms by (simp add: skip_ws_def is_ws_def)

lemma parse_elements_next:
  assumes "parse_value f (t @ CHR '','' # others) = Some (x, CHR '','' # others)"
    and "parse_elements f others = Some (xs, rest)"
  shows "parse_elements (Suc f) (t @ CHR '','' # others) = Some (x # xs, rest)"
  using assms by (simp add: skip_ws_def is_ws_def)

lemma parse_members_last:
  assumes "parse_value f (t @ CHR ''}'' # rest) = Some (v, CHR ''}'' # rest)"
  shows "parse_members (Suc f) (quote k @ CHR '':'' # t @ CHR ''}'' # rest) = Some ([(k, v)], rest)"
  using assms by (simp add: skip_ws_def is_ws_def quote_def parse_chars_quoted)

lemma parse_members_next:
  assumes "parse_value f (t @ CHR '','' # others) = Some (v, CHR '','' # others)"
    and "parse_members f others = Some (ps, rest)"
  shows "parse_members (Suc f) (quote k @ CHR '':'' # t @ CHR '','' # others) = Some ((k, v) # ps, rest)"
  using assms by (simp add: skip_ws_def is_ws_def quote_def parse_chars_quoted)

text \<open>
  Parsing the text of a value, followed by anything that may follow a value, gives the value
  back and stops right after it, provided the fuel covers the length of the text.
\<close>

lemma parse_stringify:
  "wf_json v \<Longrightarrow> length (JSON_stringify v) \<le> f \<Longrightarrow> follow_ok rest \<Longrightarrow>
     parse_value f (JSON_stringify v @ rest) = Some (v, rest)"
  and "xs \<noteq> [] \<Longrightarrow> \<forall>x \<in> set xs. wf_json x \<Longrightarrow> length (stringify_elements xs) < f \<Longrightarrow>
     parse_elements f (stringify_elements xs @ CHR '']'' # rest) = Some (xs, rest)"
  and "ps \<noteq> [] \<Longrightarrow> \<forall>p \<in> set ps. wf_json (snd p) \<Longrightarrow> length (stringify_members ps) < f \<Longrightarrow>
     parse_members f (stringify_members ps @ CHR ''}'' # rest) = Some (ps, rest)"
proof (induction v and xs and ps arbitrary: f rest and f rest and f rest
       rule: JSON_stringify_stringify_elements_stringify_members.induct)
  case 1
  then obtain g where "f = Suc g" by (cases f) simp_all
  then show ?case using parse_value_null by simp
next
  case (2 b)
  then obtain g where "f = Suc g" by (cases f) (simp_all split: if_splits)
  then show ?case using parse_value_true parse_value_false by simp
next
  case (3 i)
  obtain c cs where "show_int i = c # cs" using show_int_head by blast
  with 3 obtain g where "f = Suc g" by (cases f) simp_all
  then show ?case using 3 parse_value_number by simp
next
  case (4 s)
  then obtain g where "f = Suc g" by (cases f) (simp_all add: quote_head)
  then show ?case using parse_value_string by simp
next
  case (5 xs)
  then obtain g where f: "f = Suc g" and g: "length (stringify_elements xs) < g"
    by (cases f) auto
  show ?case
  proof (cases "xs = []")
    case True
    then show ?thesis using f parse_value_empty_array by simp
  next
    case False
    obtain c cs where h: "stringify_elements xs = c # cs" "value_start c"
      using elements_head[OF False] by blast
    have "parse_elements g (stringify_elements xs @ CHR '']'' # rest) = Some (xs, rest)"
      using "5.IH"[OF False _ g] "5.prems"(1) by simp
    then show ?thesis
      using parse_value_array[OF _ h] f by simp
  qed
next
  case (6 ps)
  then obtain g where f: "f = Suc g" and g: "length (stringify_members ps) < g"
    by (cases f) auto
  have wf: "distinct (map fst ps)" "own_keys_order ps = ps" "\<forall>p \<in> set ps. wf_json (snd p)"
    using "6.prems"(1) by simp_all
  show ?case
  proof (cases "ps = []")
    case True
    then show ?thesis using f parse_value_empty_object by simp
  next
    case False
    obtain cs where h: "stringify_members ps = CHR 0x22 # cs"
      using members_head[OF False] by blast
    have "parse_members g (stringify_members ps @ CHR ''}'' # rest) = Some (ps, rest)"
      using "6.IH"[OF False wf(3) g] .
    then show ?thesis
      using parse_value_object[OF _ h] f object_of_wf[OF wf(1,2)] by simp
  qed
next
  case 7
  then show ?case by simp
next
  case (8 x)
  then obtain g where f: "f = Suc g" and g: "length (JSON_stringify x) \<le> g"
    by (cases f) auto
  have "parse_value g (JSON_stringify x @ CHR '']'' # rest) = Some (x, CHR '']'' # rest)"
    using "8.IH"[OF _ g] "8.prems"(2) by simp
  then show ?case using f parse_elements_last by simp
next
  case (9 x y ys)
  then obtain g where f: "f = Suc g"
    and g: "length (JSON_stringify x) \<le> g" "length (stringify_elements (y # ys)) < g"
    by (cases f) auto
  let ?others = "stringify_elements (y # ys) @ CHR '']'' # rest"
  have a: "parse_value g (JSON_stringify x @ CHR '','' # ?others) = Some (x, CHR '','' # ?others)"
    using "9.IH"(1)[OF _ g(1)] "9.prems"(2) by simp
  have b: "parse_elements g ?others = Some (y # ys, rest)"
    using "9.IH"(2)[OF _ _ g(2)] "9.prems"(2) by simp
  show ?case using f parse_elements_next[OF a b] by simp
next
  case 10
  then show ?case by simp
next
  case (11 k v)
  then obtain g where f: "f = Suc g" and g: "length (JSON_stringify v) \<le> g"
    by (cases f) auto
  have "parse_value g (JSON_stringify v @ CHR ''}'' # rest) = Some (v, CHR ''}'' # rest)"
    using "11.IH"[OF _ g] "11.prems"(2) by simp
  then show ?case using f parse_members_last by simp
next
  case (12 k v p ps)
  then obtain g where f: "f = Suc g"
    and g: "length (JSON_stringify v) \<le> g" "length (stringify_members (p # ps)) < g"
    by (cases f) auto
  let ?others = "stringify_members (p # ps) @ CHR ''}'' # rest"
  have a: "parse_value g (JSON_stringify v @ CHR '','' # ?others) = Some (v, CHR '','' # ?others)"
    using "12.IH"(1)[OF _ g(1)] "12.prems"(2) by simp
  have b: "parse_members g ?others = Some (p # ps, rest)"
    using "12.IH"(2)[OF _ _ g(2)] "12.prems"(2) by simp
  show ?case using f parse_members_next[OF a b] by simp
qed

lemma JSON_parse_stringify:
  assumes "wf_json v"
  shows "JSON_parse (JSON_stringify v) = Some v"
  using parse_stringify(1)[OF assms, of "Suc (length (JSON_stringify v))" "[]"]
  by (simp add: JSON_parse_def skip_ws_def)

subsection \<open>The serialised text holds no line feed\<close>

lemma hex_digit_not_newline: "d < 16 \<Longrightarrow> CHR 0x0A \<noteq> hex_digit d"
proof -
  assume "d < 16"
  then have "d \<in> set [0..<16]" by simp
  then have "d \<in> set [0,1,2,3,4,5,6,7,8,9,10,11,12,13,14,15::nat]" by (simp only: upt16)
  then show ?thesis by (auto simp: hex_digit_def)
qed

lemma quote_char_no_newline: "CHR 0x0A \<notin> set (quote_char c)"
proof (cases "(of_char c :: nat) < 0x20")
  case True
  then have "(of_char c :: nat) div 16 < 16" "(of_char c :: nat) mod 16 < 16" by simp_all
  then show ?thesis
    using hex_digit_not_newline by (simp add: quote_char_def)
next
  case False
  then have "c \<noteq> CHR 0x0A" by auto
  then show ?thesis using False by (simp add: quote_char_def)
qed

lemma quote_no_newline: "CHR 0x0A \<notin> set (quote s)"
  by (simp add: quote_def quote_char_no_newline)

lemma show_int_no_newline: "CHR 0x0A \<notin> set (show_int i)"
proof -
  have "CHR 0x0A \<notin> set (digits n)" for n
    using digits_all_digit[of n] by (auto simp: list_all_iff is_digit_def)
  then show ?thesis by (simp add: show_int_def)
qed

lemma stringify_no_newline:
  "CHR 0x0A \<notin> set (JSON_stringify v)"
  and "CHR 0x0A \<notin> set (stringify_elements xs)"
  and "CHR 0x0A \<notin> set (stringify_members ps)"
  by (induction v and xs and ps rule: JSON_stringify_stringify_elements_stringify_members.induct)
     (simp_all add: quote_no_newline show_int_no_newline)

section \<open>The relay loop\<close>

lemma emit_state [simp]: "state (emit x c) = state c"
  by (simp add: emit_def)

lemma emit_trace [simp]: "trace (emit x c) = trace c @ [x]"
  by (simp add: emit_def)

lemma frame_of_eq:
  "frame_of event =
     sse_frame (JSON_stringify_literal
       (envelope (case get_prop event ''type'' of Inl _ \<Rightarrow> None | Inr ty \<Rightarrow> ty) event))"
  by (simp add: frame_of_def envelope_json_def JSON_stringify_literal_def)

lemma relay_event_ok:
  "event \<noteq> JNull \<Longrightarrow> state c = Readable \<Longrightarrow>
   relay_event event c = Inr (emit (Enqueued (frame_of event)) c)"
  by (cases event) (simp_all add: relay_event_def enqueue_def frame_of_eq)

lemma for_await_run:
  assumes "\<forall>ev \<in> set (events_of u). ev \<noteq> JNull" and "state c = Readable"
  shows "for_await u c = (outcome_of u, c\<lparr>trace := trace c @ relayed (events_of u)\<rparr>)"
  using assms
proof (induction u arbitrary: c)
  case (Yield ev rest)
  let ?c' = "emit (Enqueued (frame_of ev)) (emit (Pulled ev) c)"
  have step: "relay_event ev (emit (Pulled ev) c) = Inr ?c'"
    using Yield.prems by (simp add: relay_event_ok)
  have "for_await rest ?c' = (outcome_of rest, ?c'\<lparr>trace := trace ?c' @ relayed (events_of rest)\<rparr>)"
    using Yield.prems by (intro Yield.IH) simp_all
  then show ?case using step by (simp add: relayed_def emit_def)
next
  case Complete
  then show ?case by (simp add: relayed_def)
next
  case (Fault e)
  then show ?case by (simp add: relayed_def)
qed

lemma start_run:
  assumes "\<forall>ev \<in> set (events_of u). ev \<noteq> JNull"
  shows "start u fresh_controller =
     (None, \<lparr>state = (case outcome_of u of None \<Rightarrow> Closed | Some e \<Rightarrow> Errored e),
             trace = relayed (events_of u) @ closing (outcome_of u)\<rparr>)"
  using for_await_run[OF assms, of fresh_controller]
  by (cases "outcome_of u")
     (simp_all add: start_def fresh_controller_def close_def on_stream_error_def error_def
        console_error_def emit_def closing_def)

lemma chunks_relayed:
  "chunks \<lparr>state = s, trace = relayed evs @ rest\<rparr> = map frame_of evs @ chunks \<lparr>state = s, trace = rest\<rparr>"
  by (induction evs) (simp_all add: chunks_def relayed_def)

lemma chunks_relayed_closing:
  "chunks \<lparr>state = s, trace = relayed evs @ closing r\<rparr> = map frame_of evs"
  by (simp add: chunks_relayed) (simp add: chunks_def closing_def split: option.splits)

lemma chunks_start:
  assumes "\<forall>ev \<in> set (events_of u). ev \<noteq> JNull"
  shows "chunks (ReadableStream_new (start u)) = map frame_of (events_of u)"
  using start_run[OF assms] chunks_relayed_closing
  by (simp add: ReadableStream_new_def)

lemma sse_frame_eq: "sse_frame t = ''data: '' @ t @ [CHR 0x0A, CHR 0x0A]"
  by (simp add: sse_frame_def)

lemma envelope_json_typed:
  "map_of ps ''type'' = Some t \<Longrightarrow> envelope_json (JObj ps) = JObj [(''event'', t), (''data'', JObj ps)]"
  by (simp add: envelope_json_def envelope_def defined_props_def)

lemma not_index_event: "\<not> is_array_index ''event''" "\<not> is_array_index ''data''"
  by (simp_all add: is_array_index_def is_digit_def)

lemma wf_envelope:
  assumes "wf_json t" and "wf_json ev"
  shows "wf_json (JObj [(''event'', t), (''data'', ev)])"
  using assms by (simp add: own_keys_order_def not_index_event)

lemma wf_delta_event: "wf_json delta_event"
  by (simp add: delta_event_def own_keys_order_def is_array_index_def is_digit_def)

lemma stringify_delta_envelope:
  "JSON_stringify (envelope_json delta_event) =
     [CHR ''{'', CHR 0x22] @ ''event'' @ [CHR 0x22, CHR '':'', CHR 0x22] @ ''response.output_text.delta''
     @ [CHR 0x22, CHR '','', CHR 0x22] @ ''data'' @ [CHR 0x22, CHR '':'', CHR ''{'', CHR 0x22] @ ''type''
     @ [CHR 0x22, CHR '':'', CHR 0x22] @ ''response.output_text.delta'' @ [CHR 0x22, CHR '','', CHR 0x22]
     @ ''delta'' @ [CHR 0x22, CHR '':'', CHR 0x22] @ ''hi'' @ [CHR 0x22, CHR ''}'', CHR ''}'']"
  by (simp add: delta_event_def envelope_json_typed quote_def quote_char_def)

section \<open>What the client receives\<close>


lemma errored_client_reads [simp]: "errored (client_reads n p) = errored p"
  by (simp add: client_reads_def)






lemma received_apply_op [simp]: "received (apply_op x p) = received p"
  by (cases x) simp_all







section \<open>The gateway\<close>

lemma turn_response_calls:
  "UpstreamCall p \<in> set (snd (turn_response sdk request env)) \<Longrightarrow> model p = MODEL"
  by (auto simp: turn_response_def Let_def split: sum.splits prod.splits)

lemma fetch_calls:
  "UpstreamCall p \<in> set (log (fetch sdk request env)) \<Longrightarrow>
   UpstreamCall p \<in> set (snd (turn_response sdk request env))"
  by (auto simp: fetch_def split: if_splits prod.splits sum.splits)

lemma fetch_relay_route:
  assumes "http_method request = ''POST''" and "pathname request = ''/api/turn_response''"
  shows "fetch sdk request env =
           (case turn_response sdk request env of
              (Inr r, l) \<Rightarrow> \<lparr>response = r, log = l\<rparr>
            | (Inl e, l) \<Rightarrow> \<lparr>response = error_response e, log = l @ [ConsoleError ''Error in handler:'' e]\<rparr>)"
  using assms by (simp add: fetch_def)

lemma error_response_eq:
  "error_response e =
     \<lparr>status = 500, headers = json_error_headers,
      body = TextBody (''{'' @ quote ''error'' @ '':'' @ quote (error_message e) @ ''}'')\<rparr>"
  by (simp add: error_response_def Response_new_def JSON_stringify_literal_def defined_props_def
        json_error_headers_def corsHeaders_def)

lemma has_cors_error_response: "has_cors (error_response e)"
  by (simp add: error_response_eq has_cors_def json_error_headers_def)

lemma has_cors_turn_response:
  "turn_response sdk request env = (Inr r, l) \<Longrightarrow> has_cors r"
  by (auto simp: turn_response_def Let_def Response_new_def has_cors_def corsHeaders_def
        split: sum.splits prod.splits)

text \<open>Every response but the 404 carries the three CORS headers.\<close>

lemma cors_unless_not_found:
  assumes "status (response (fetch sdk request env)) \<noteq> 404"
  shows "has_cors (response (fetch sdk request env))"
proof -
  consider (options) "http_method request = ''OPTIONS''"
    | (get) "http_method request \<noteq> ''OPTIONS''" "http_method request = ''GET''"
    | (post) "http_method request \<noteq> ''OPTIONS''" "http_method request \<noteq> ''GET''" "http_method request = ''POST''"
    | (other) "http_method request \<noteq> ''OPTIONS''" "http_method request \<noteq> ''GET''" "http_method request \<noteq> ''POST''"
    by blast
  then show ?thesis
  proof cases
    case options
    then show ?thesis by (simp add: fetch_def Response_new_def has_cors_def corsHeaders_def)
  next
    case get
    then show ?thesis by (simp add: fetch_def Response_new_def has_cors_def corsHeaders_def)
  next
    case post
    show ?thesis
    proof (cases "pathname request = ''/api/turn_response''")
      case True
      obtain x l where t: "turn_response sdk request env = (x, l)" by (cases "turn_response sdk request env")
      show ?thesis
      proof (cases x)
        case (Inl e)
        then show ?thesis using post True t has_cors_error_response by (simp add: fetch_def)
      next
        case (Inr r)
        then show ?thesis using post True t has_cors_turn_response[of sdk request env r l]
          by (simp add: fetch_def)
      qed
    next
      case False
      then have "status (response (fetch sdk request env)) = 404"
        using post by (simp add: fetch_def Response_new_def)
      then show ?thesis using assms by simp
    qed
  next
    case other
    then show ?thesis by (simp add: fetch_def Response_new_def has_cors_def corsHeaders_def)
  qed
qed

section \<open>The properties of the specification\<close>

text \<open>
  C1. For every sequence of upstream events, the relay writes one frame per event, in the
  order of the events, each frame written before the next event is pulled; no kind of event
  is left out. The events are any JSON values but \<^verbatim>\<open>null\<close>; the trace of the stream is,
  for each event in turn, its pull followed by its frame, and then the closing operations.
\<close>

theorem relay_one_frame_per_event:
  assumes "\<forall>ev \<in> set (events_of u). ev \<noteq> JNull"
  shows "trace (ReadableStream_new (start u)) = relayed (events_of u) @ closing (outcome_of u)
       \<and> chunks (ReadableStream_new (start u)) = map frame_of (events_of u)"
  using start_run[OF assms] chunks_relayed_closing
  by (simp add: ReadableStream_new_def)

theorem relay_one_frame_per_event_witness:
  "delta_event \<noteq> JNull \<and> done_event \<noteq> JNull
   \<and> trace (ReadableStream_new (start (Yield delta_event (Yield done_event Complete))))
       = [Pulled delta_event, Enqueued (frame_of delta_event),
          Pulled done_event, Enqueued (frame_of done_event), CloseCalled]
   \<and> chunks (ReadableStream_new (start (Yield delta_event (Yield done_event Complete))))
       = [frame_of delta_event, frame_of done_event]"
  using relay_one_frame_per_event[of "Yield delta_event (Yield done_event Complete)"]
  by (simp add: delta_event_def done_event_def relayed_def closing_def)

text \<open>
  C2. For an upstream event of kind \<open>kind\<close>, the frame the relay writes carries the
  serialisation of the envelope \<^verbatim>\<open>{ event: kind, data: event }\<close>; parsing that text
  gives the envelope back, and its \<^verbatim>\<open>data\<close> is the whole event.
\<close>

theorem envelope_round_trip:
  assumes "wf_json (JObj ps)" and "map_of ps ''type'' = Some (JStr kind)" and "state c = Readable"
  shows "relay_event (JObj ps) c =
           Inr (emit (Enqueued (sse_frame (JSON_stringify (JObj [(''event'', JStr kind), (''data'', JObj ps)])))) c)
       \<and> JSON_parse (JSON_stringify (JObj [(''event'', JStr kind), (''data'', JObj ps)]))
           = Some (JObj [(''event'', JStr kind), (''data'', JObj ps)])
       \<and> get_prop (JObj [(''event'', JStr kind), (''data'', JObj ps)]) ''data'' = Inr (Some (JObj ps))
       \<and> get_prop (JObj [(''event'', JStr kind), (''data'', JObj ps)]) ''event'' = Inr (Some (JStr kind))"
proof -
  have "wf_json (JObj [(''event'', JStr kind), (''data'', JObj ps)])"
    using wf_envelope[of "JStr kind" "JObj ps"] assms(1) by simp
  then have "JSON_parse (JSON_stringify (JObj [(''event'', JStr kind), (''data'', JObj ps)]))
           = Some (JObj [(''event'', JStr kind), (''data'', JObj ps)])"
    by (rule JSON_parse_stringify)
  moreover have "relay_event (JObj ps) c =
           Inr (emit (Enqueued (sse_frame (JSON_stringify (JObj [(''event'', JStr kind), (''data'', JObj ps)])))) c)"
    using assms(2,3) relay_event_ok[of "JObj ps" c]
    by (simp add: frame_of_def envelope_json_typed)
  ultimately show ?thesis by simp
qed

theorem envelope_round_trip_witness:
  "wf_json delta_event
   \<and> map_of [(''type'', JStr ''response.output_text.delta''), (''delta'', JStr ''hi'')] ''type''
       = Some (JStr ''response.output_text.delta'')
   \<and> state fresh_controller = Readable
   \<and> JSON_parse (JSON_stringify (JObj [(''event'', JStr ''response.output_text.delta''), (''data'', delta_event)]))
       = Some (JObj [(''event'', JStr ''response.output_text.delta''), (''data'', delta_event)])
   \<and> get_prop (JObj [(''event'', JStr ''response.output_text.delta''), (''data'', delta_event)]) ''data''
       = Inr (Some delta_event)"
  using envelope_round_trip[of "[(''type'', JStr ''response.output_text.delta''), (''delta'', JStr ''hi'')]"
          "''response.output_text.delta''" fresh_controller] wf_delta_event
  by (simp add: delta_event_def fresh_controller_def)




text \<open>
  C4, as the code has it. A POST to the relay route whose body is not JSON is answered with
  status 500, content type \<^verbatim>\<open>application/json\<close> and the body \<^verbatim>\<open>{"error":<message>}\<close>,
  and no upstream call is made. A body that is an object without \<^verbatim>\<open>messages\<close> is not
  refused by the gateway. If the client of the SDK cannot be constructed, the answer is the
  same 500 with the message of that error, and no upstream call is made. Otherwise the
  upstream call is issued with no input, and the response is the 500 if that call throws and
  the event stream if it does not.
\<close>

theorem malformed_body_is_500:
  assumes "http_method request = ''POST''" and "pathname request = ''/api/turn_response''"
  shows "(json request = Inl e \<longrightarrow>
            fetch sdk request env =
              \<lparr>response = \<lparr>status = 500, headers = json_error_headers,
                            body = TextBody (''{'' @ quote ''error'' @ '':'' @ quote (error_message e) @ ''}'')\<rparr>,
               log = [ConsoleError ''Error in handler:'' e]\<rparr>)
       \<and> (json request = Inr (JObj ps) \<and> map_of ps ''messages'' = None \<longrightarrow>
            (case new_OpenAI sdk (OPENAI_API_KEY env) of
               Inl e' \<Rightarrow>
                 fetch sdk request env =
                   \<lparr>response = error_response e', log = [ConsoleError ''Error in handler:'' e']\<rparr>
             | Inr openai \<Rightarrow>
                 upstream_calls (log (fetch sdk request env)) =
                   [\<lparr>model = MODEL, input = None, tools = map_of ps ''tools'',
                     stream = True, parallel_tool_calls = False\<rparr>]
                 \<and> response (fetch sdk request env) =
                     (case responses_create sdk openai
                             \<lparr>model = MODEL, input = None, tools = map_of ps ''tools'',
                              stream = True, parallel_tool_calls = False\<rparr> of
                        Inl e' \<Rightarrow> error_response e'
                      | Inr events \<Rightarrow>
                          \<lparr>status = 200, headers = stream_headers,
                           body = StreamBody (ReadableStream_new (start events))\<rparr>)))"
  using assms
  by (auto simp: fetch_relay_route turn_response_def destructure_def Let_def upstream_calls_def
        error_response_eq Response_new_def stream_headers_def corsHeaders_def split: sum.splits)

theorem malformed_body_is_500_witness:
  "http_method (post_turn (Inl (JsError ''Unexpected token''))) = ''POST''
   \<and> pathname (post_turn (Inl (JsError ''Unexpected token''))) = ''/api/turn_response''
   \<and> json (post_turn (Inl (JsError ''Unexpected token''))) = Inl (JsError ''Unexpected token'')
   \<and> status (response (fetch (stub_sdk Complete) (post_turn (Inl (JsError ''Unexpected token''))) test_env)) = 500
   \<and> body (response (fetch (stub_sdk Complete) (post_turn (Inl (JsError ''Unexpected token''))) test_env))
       = TextBody ([CHR ''{'', CHR 0x22] @ ''error'' @ [CHR 0x22, CHR '':'', CHR 0x22]
                   @ ''Unexpected token'' @ [CHR 0x22, CHR ''}''])
   \<and> json (post_turn (Inr (JObj []))) = Inr (JObj [])
   \<and> map_of ([] :: (string \<times> json) list) ''messages'' = None
   \<and> response (fetch (rejecting_sdk (JsError ''400 Missing input'')) (post_turn (Inr (JObj []))) test_env)
       = error_response (JsError ''400 Missing input'')
   \<and> fetch (failing_sdk (JsError ''Missing credentials'')) (post_turn (Inr (JObj []))) \<lparr>OPENAI_API_KEY = None\<rparr>
       = \<lparr>response = error_response (JsError ''Missing credentials''),
          log = [ConsoleError ''Error in handler:'' (JsError ''Missing credentials'')]\<rparr>"
  using malformed_body_is_500[of "post_turn (Inl (JsError ''Unexpected token''))"
          "JsError ''Unexpected token''" "stub_sdk Complete" test_env "[]"]
        malformed_body_is_500[of "post_turn (Inr (JObj []))" NonError
          "rejecting_sdk (JsError ''400 Missing input'')" test_env "[]"]
        malformed_body_is_500[of "post_turn (Inr (JObj []))" NonError
          "failing_sdk (JsError ''Missing credentials'')" "\<lparr>OPENAI_API_KEY = None\<rparr>" "[]"]
  by (simp add: post_turn_def stub_sdk_def rejecting_sdk_def failing_sdk_def test_env_def quote_def
        quote_char_def error_message_def)

text \<open>
  C4, as stated, fails: the body \<^verbatim>\<open>{}\<close> has no \<^verbatim>\<open>messages\<close>, and with a provider that
  accepts the call the answer is the 200 event stream.
\<close>

theorem missing_messages_counterexample:
  "http_method (post_turn (Inr (JObj []))) = ''POST''
   \<and> pathname (post_turn (Inr (JObj []))) = ''/api/turn_response''
   \<and> get_prop (JObj []) ''messages'' = Inr None
   \<and> status (response (fetch (stub_sdk Complete) (post_turn (Inr (JObj []))) test_env)) = 200
   \<and> status (response (fetch (stub_sdk Complete) (post_turn (Inr (JObj []))) test_env)) \<noteq> 500"
  by (simp add: fetch_def post_turn_def turn_response_def destructure_def stub_sdk_def test_env_def
        Response_new_def)

text \<open>
  C5. The specification has every response carry the CORS headers. The 404 for a POST to
  another path does not: it is built with a status and nothing else, so its only header is
  the content type of its text body. Every other response of the handler does carry them.
\<close>

theorem not_found_lacks_cors:
  "response (fetch (stub_sdk Complete)
       \<lparr>http_method = ''POST'', pathname = ''/api/unknown'', json = Inr (JObj [])\<rparr> test_env)
     = \<lparr>status = 404, headers = [(''Content-Type'', ''text/plain;charset=UTF-8'')],
        body = TextBody ''Not found''\<rparr>
   \<and> \<not> has_cors (response (fetch (stub_sdk Complete)
       \<lparr>http_method = ''POST'', pathname = ''/api/unknown'', json = Inr (JObj [])\<rparr> test_env))
   \<and> (\<forall>sdk request env. status (response (fetch sdk request env)) \<noteq> 404 \<longrightarrow>
         has_cors (response (fetch sdk request env)))"
proof -
  have "response (fetch (stub_sdk Complete)
       \<lparr>http_method = ''POST'', pathname = ''/api/unknown'', json = Inr (JObj [])\<rparr> test_env)
     = \<lparr>status = 404, headers = [(''Content-Type'', ''text/plain;charset=UTF-8'')],
        body = TextBody ''Not found''\<rparr>"
    by (simp add: fetch_def Response_new_def)
  then show ?thesis
    using cors_unless_not_found by (simp add: has_cors_def)
qed

theorem not_found_lacks_cors_witness:
  "status (response (fetch (stub_sdk Complete)
       \<lparr>http_method = ''PUT'', pathname = ''/api/turn_response'', json = Inr (JObj [])\<rparr> test_env)) = 405
   \<and> has_cors (response (fetch (stub_sdk Complete)
       \<lparr>http_method = ''PUT'', pathname = ''/api/turn_response'', json = Inr (JObj [])\<rparr> test_env))"
proof -
  have s: "status (response (fetch (stub_sdk Complete)
       \<lparr>http_method = ''PUT'', pathname = ''/api/turn_response'', json = Inr (JObj [])\<rparr> test_env)) = 405"
    by (simp add: fetch_def Response_new_def)
  then have "status (response (fetch (stub_sdk Complete)
       \<lparr>http_method = ''PUT'', pathname = ''/api/turn_response'', json = Inr (JObj [])\<rparr> test_env)) \<noteq> 404"
    by simp
  then show ?thesis using s not_found_lacks_cors by blast
qed

text \<open>
  C6, as the code has it. A request with method OPTIONS, whatever its path and body, is
  answered with the CORS headers and no body; the status is the default 200.
\<close>

theorem options_preflight:
  assumes "http_method request = ''OPTIONS''"
  shows "fetch sdk request env =
           \<lparr>response = \<lparr>status = 200,
                         headers = [(''Access-Control-Allow-Origin'', ''*''),
                                    (''Access-Control-Allow-Methods'', ''GET, POST, OPTIONS''),
                                    (''Access-Control-Allow-Headers'', ''Content-Type'')],
                         body = NoBody\<rparr>,
            log = []\<rparr>"
  using assms by (simp add: fetch_def Response_new_def corsHeaders_def)

theorem options_preflight_witness:
  "http_method \<lparr>http_method = ''OPTIONS'', pathname = ''/api/turn_response'', json = Inl NonError\<rparr> = ''OPTIONS''
   \<and> status (response (fetch (stub_sdk Complete)
         \<lparr>http_method = ''OPTIONS'', pathname = ''/api/turn_response'', json = Inl NonError\<rparr> test_env)) = 200
   \<and> body (response (fetch (stub_sdk Complete)
         \<lparr>http_method = ''OPTIONS'', pathname = ''/api/turn_response'', json = Inl NonError\<rparr> test_env)) = NoBody"
  using options_preflight[of "\<lparr>http_method = ''OPTIONS'', pathname = ''/api/turn_response'', json = Inl NonError\<rparr>"
          "stub_sdk Complete" test_env]
  by simp

text \<open>C6, as stated, fails: the status of the preflight response is not 204.\<close>

theorem options_status_counterexample:
  "http_method \<lparr>http_method = ''OPTIONS'', pathname = ''/'', json = Inl NonError\<rparr> = ''OPTIONS''
   \<and> status (response (fetch (stub_sdk Complete)
         \<lparr>http_method = ''OPTIONS'', pathname = ''/'', json = Inl NonError\<rparr> test_env)) \<noteq> 204"
  by (simp add: fetch_def Response_new_def)

text \<open>
  C7. A valid POST is answered with status 200 and the headers of an event stream, and the
  body is the stream the relay feeds. Each chunk of it is the text \<^verbatim>\<open>data: \<close>, the
  serialised envelope, and two line feeds; there is no line feed before those two.
\<close>

theorem sse_framing:
  assumes "http_method request = ''POST''" and "pathname request = ''/api/turn_response''"
    and "json request = Inr requestData" and "destructure requestData = Inr (messages, tls)"
    and "new_OpenAI sdk (OPENAI_API_KEY env) = Inr openai"
    and "responses_create sdk openai
           \<lparr>model = MODEL, input = messages, tools = tls, stream = True, parallel_tool_calls = False\<rparr>
         = Inr events"
    and "\<forall>ev \<in> set (events_of events). ev \<noteq> JNull"
  shows "response (fetch sdk request env) =
           \<lparr>status = 200,
            headers = [(''Content-Type'', ''text/event-stream''), (''Cache-Control'', ''no-cache''),
                       (''Connection'', ''keep-alive''),
                       (''Access-Control-Allow-Origin'', ''*''),
                       (''Access-Control-Allow-Methods'', ''GET, POST, OPTIONS''),
                       (''Access-Control-Allow-Headers'', ''Content-Type'')],
            body = StreamBody (ReadableStream_new (start events))\<rparr>
       \<and> chunks (ReadableStream_new (start events)) =
           map (\<lambda>ev. ''data: '' @ JSON_stringify (envelope_json ev) @ [CHR 0x0A, CHR 0x0A])
             (events_of events)
       \<and> (\<forall>ev. CHR 0x0A \<notin> set (''data: '' @ JSON_stringify (envelope_json ev)))"
proof -
  have "response (fetch sdk request env) =
           \<lparr>status = 200,
            headers = [(''Content-Type'', ''text/event-stream''), (''Cache-Control'', ''no-cache''),
                       (''Connection'', ''keep-alive''),
                       (''Access-Control-Allow-Origin'', ''*''),
                       (''Access-Control-Allow-Methods'', ''GET, POST, OPTIONS''),
                       (''Access-Control-Allow-Headers'', ''Content-Type'')],
            body = StreamBody (ReadableStream_new (start events))\<rparr>"
    using assms(1-6)
    by (simp add: fetch_relay_route turn_response_def Let_def Response_new_def corsHeaders_def)
  moreover have "chunks (ReadableStream_new (start events)) =
           map (\<lambda>ev. ''data: '' @ JSON_stringify (envelope_json ev) @ [CHR 0x0A, CHR 0x0A])
             (events_of events)"
    using chunks_start[OF assms(7)] by (simp add: frame_of_def sse_frame_eq)
  moreover have "\<forall>ev. CHR 0x0A \<notin> set (''data: '' @ JSON_stringify (envelope_json ev))"
    using stringify_no_newline(1) by simp
  ultimately show ?thesis by simp
qed

theorem sse_framing_witness:
  "http_method (post_turn (Inr (JObj [(''messages'', JArr [JObj [(''role'', JStr ''user''), (''content'', JStr ''hi'')]])])))
     = ''POST''
   \<and> destructure (JObj [(''messages'', JArr [JObj [(''role'', JStr ''user''), (''content'', JStr ''hi'')]])])
     = Inr (Some (JArr [JObj [(''role'', JStr ''user''), (''content'', JStr ''hi'')]]), None)
   \<and> delta_event \<noteq> JNull
   \<and> status (response (fetch (stub_sdk (Yield delta_event Complete))
        (post_turn (Inr (JObj [(''messages'', JArr [JObj [(''role'', JStr ''user''), (''content'', JStr ''hi'')]])])))
        test_env)) = 200
   \<and> chunks (ReadableStream_new (start (Yield delta_event Complete))) =
       [''data: '' @ [CHR ''{'', CHR 0x22] @ ''event'' @ [CHR 0x22, CHR '':'', CHR 0x22]
        @ ''response.output_text.delta'' @ [CHR 0x22, CHR '','', CHR 0x22] @ ''data''
        @ [CHR 0x22, CHR '':'', CHR ''{'', CHR 0x22] @ ''type'' @ [CHR 0x22, CHR '':'', CHR 0x22]
        @ ''response.output_text.delta'' @ [CHR 0x22, CHR '','', CHR 0x22] @ ''delta''
        @ [CHR 0x22, CHR '':'', CHR 0x22] @ ''hi'' @ [CHR 0x22, CHR ''}'', CHR ''}'', CHR 0x0A, CHR 0x0A]]"
  using sse_framing[of
      "post_turn (Inr (JObj [(''messages'', JArr [JObj [(''role'', JStr ''user''), (''content'', JStr ''hi'')]])]))"
      "JObj [(''messages'', JArr [JObj [(''role'', JStr ''user''), (''content'', JStr ''hi'')]])]"
      "Some (JArr [JObj [(''role'', JStr ''user''), (''content'', JStr ''hi'')]])" None
      "stub_sdk (Yield delta_event Complete)" test_env "Client (Some ''sk-test'')"
      "Yield delta_event Complete"]
    stringify_delta_envelope
  by (simp add: post_turn_def destructure_def stub_sdk_def test_env_def delta_event_def)

text \<open>
  C8. When the upstream sequence ends, \<^verbatim>\<open>start\<close> closes the stream, and the close is the
  last thing it does: after the frame of the last event nothing more is written, and the
  chunks of the stream are the frames of the events and nothing else.
\<close>

theorem exhaustion_closes:
  assumes "\<forall>ev \<in> set (events_of u). ev \<noteq> JNull" and "outcome_of u = None"
  shows "start u fresh_controller =
           (None, \<lparr>state = Closed, trace = relayed (events_of u) @ [CloseCalled]\<rparr>)
       \<and> chunks (ReadableStream_new (start u)) = map frame_of (events_of u)"
  using start_run[OF assms(1)] assms(2) chunks_relayed_closing[of _ _ None]
  by (simp add: ReadableStream_new_def closing_def)

theorem exhaustion_closes_witness:
  "delta_event \<noteq> JNull
   \<and> outcome_of (Yield delta_event Complete) = None
   \<and> start (Yield delta_event Complete) fresh_controller =
        (None, \<lparr>state = Closed,
                trace = [Pulled delta_event, Enqueued (frame_of delta_event), CloseCalled]\<rparr>)
   \<and> chunks (ReadableStream_new (start (Yield delta_event Complete))) = [frame_of delta_event]"
  using exhaustion_closes[of "Yield delta_event Complete"]
  by (simp add: delta_event_def relayed_def)

text \<open>
  C9. For a POST to the relay route whose body is an object with a \<^verbatim>\<open>messages\<close> array,
  and a client that could be constructed, exactly one upstream call is issued: its input is
  that array, its tools are the \<^verbatim>\<open>tools\<close> of the body if any, streaming is on and
  parallel tool calls are off. The response is what this call leads to, so an empty array of
  messages is passed on and not refused.
\<close>

theorem upstream_call_parameters:
  assumes "http_method request = ''POST''" and "pathname request = ''/api/turn_response''"
    and "json request = Inr (JObj ps)" and "map_of ps ''messages'' = Some (JArr msgs)"
    and "new_OpenAI sdk (OPENAI_API_KEY env) = Inr openai"
  shows "upstream_calls (log (fetch sdk request env)) =
           [\<lparr>model = MODEL, input = Some (JArr msgs), tools = map_of ps ''tools'',
             stream = True, parallel_tool_calls = False\<rparr>]
       \<and> response (fetch sdk request env) =
           (case responses_create sdk openai
                   \<lparr>model = MODEL, input = Some (JArr msgs), tools = map_of ps ''tools'',
                    stream = True, parallel_tool_calls = False\<rparr> of
              Inl e \<Rightarrow> error_response e
            | Inr events \<Rightarrow>
                \<lparr>status = 200, headers = stream_headers,
                 body = StreamBody (ReadableStream_new (start events))\<rparr>)"
  using assms
  by (simp add: fetch_relay_route turn_response_def destructure_def Let_def upstream_calls_def
        Response_new_def stream_headers_def corsHeaders_def split: sum.splits)

theorem upstream_call_parameters_witness:
  "http_method (post_turn (Inr (JObj [(''messages'', JArr [])]))) = ''POST''
   \<and> pathname (post_turn (Inr (JObj [(''messages'', JArr [])]))) = ''/api/turn_response''
   \<and> json (post_turn (Inr (JObj [(''messages'', JArr [])]))) = Inr (JObj [(''messages'', JArr [])])
   \<and> map_of [(''messages'', JArr [])] ''messages'' = Some (JArr [])
   \<and> new_OpenAI (stub_sdk Complete) (OPENAI_API_KEY test_env) = Inr (Client (Some ''sk-test''))
   \<and> upstream_calls (log (fetch (stub_sdk Complete) (post_turn (Inr (JObj [(''messages'', JArr [])]))) test_env))
       = [\<lparr>model = MODEL, input = Some (JArr []), tools = None, stream = True, parallel_tool_calls = False\<rparr>]
   \<and> status (response (fetch (stub_sdk Complete) (post_turn (Inr (JObj [(''messages'', JArr [])]))) test_env)) = 200"
  using upstream_call_parameters[of "post_turn (Inr (JObj [(''messages'', JArr [])]))"
          "[(''messages'', JArr [])]" "[]" "stub_sdk Complete" test_env "Client (Some ''sk-test'')"]
  by (simp add: post_turn_def stub_sdk_def test_env_def)

text \<open>
  C10. Whatever the request, the model of every upstream call is the constant
  \<^verbatim>\<open>gpt-4.1-nano-2025-04-14\<close>; two calls, of any two requests, have the same model.
\<close>

theorem model_is_fixed:
  assumes "UpstreamCall p \<in> set (log (fetch sdk request env))"
    and "UpstreamCall q \<in> set (log (fetch sdk' request' env'))"
  shows "model p = ''gpt-4.1-nano-2025-04-14'' \<and> model q = model p"
  using turn_response_calls fetch_calls[OF assms(1)] fetch_calls[OF assms(2)]
  by (simp add: MODEL_def)

theorem model_is_fixed_witness:
  "UpstreamCall \<lparr>model = ''gpt-4.1-nano-2025-04-14'', input = Some (JArr []), tools = None,
                  stream = True, parallel_tool_calls = False\<rparr>
     \<in> set (log (fetch (stub_sdk Complete)
                    (post_turn (Inr (JObj [(''messages'', JArr []), (''model'', JStr ''gpt-5'')]))) test_env))
   \<and> UpstreamCall \<lparr>model = ''gpt-4.1-nano-2025-04-14'', input = None, tools = Some (JArr []),
                  stream = True, parallel_tool_calls = False\<rparr>
     \<in> set (log (fetch (rejecting_sdk NonError)
                    (post_turn (Inr (JObj [(''tools'', JArr [])]))) test_env))
   \<and> model \<lparr>model = ''gpt-4.1-nano-2025-04-14'', input = Some (JArr []), tools = None,
              stream = True, parallel_tool_calls = False\<rparr> = ''gpt-4.1-nano-2025-04-14''"
  using model_is_fixed[of
      "\<lparr>model = ''gpt-4.1-nano-2025-04-14'', input = Some (JArr []), tools = None,
        stream = True, parallel_tool_calls = False\<rparr>"
      "stub_sdk Complete"
      "post_turn (Inr (JObj [(''messages'', JArr []), (''model'', JStr ''gpt-5'')]))" test_env
      "\<lparr>model = ''gpt-4.1-nano-2025-04-14'', input = None, tools = Some (JArr []),
        stream = True, parallel_tool_calls = False\<rparr>"
      "rejecting_sdk NonError" "post_turn (Inr (JObj [(''tools'', JArr [])]))" test_env]
  by (simp add: fetch_def post_turn_def turn_response_def destructure_def stub_sdk_def rejecting_sdk_def
        test_env_def MODEL_def)

end
